theory Spec2Isabelle
  imports Main "HOL-Library.Sublist"
begin

section \<open>Lexical path handling of the Go standard library (Unix)\<close>

text \<open>
  \<^verbatim>\<open>safePath\<close> calls \<^verbatim>\<open>filepath.Join\<close>, \<^verbatim>\<open>filepath.Abs\<close> and
  \<^verbatim>\<open>strings.HasPrefix\<close>. These are functions of the Go standard library; they are
  written out here for a Unix host, where the separator is \<open>/\<close> and there are no volume
  names. A Go string is a byte sequence, here a \<open>string\<close>.
\<close>

definition Separator :: char where
  "Separator = CHR ''/''"

text \<open>
  The elements of a path: the pieces between its separators, empty ones kept, as
  \<^verbatim>\<open>strings.Split(path, "/")\<close> gives them.
\<close>

fun splitSep :: "string \<Rightarrow> string list" where
  "splitSep [] = [[]]"
| "splitSep (c # cs) =
     (if c = Separator then [] # splitSep cs
      else (case splitSep cs of
              [] \<Rightarrow> [[c]]
            | e # es \<Rightarrow> (c # e) # es))"

text \<open>\<^verbatim>\<open>strings.Join(elems, "/")\<close>.\<close>

fun joinSep :: "string list \<Rightarrow> string" where
  "joinSep [] = []"
| "joinSep [e] = e"
| "joinSep (e # es) = e @ Separator # joinSep es"

text \<open>
  \<^verbatim>\<open>filepath.Clean\<close> reads the path element by element and keeps the elements of the
  result in a buffer. The buffer is the list \<open>out\<close> here, last element first. One
  element is handled as the loop body does:
  \<^item> an empty element and \<open>.\<close> are dropped;
  \<^item> at \<open>..\<close>, the last element is removed when there is one that is not itself a
    leading \<open>..\<close> (\<^verbatim>\<open>out.w > dotdot\<close>); otherwise \<open>..\<close> is appended when the path is
    not rooted, and dropped when it is;
  \<^item> any other element is appended.
\<close>

definition cleanStep :: "bool \<Rightarrow> string list \<Rightarrow> string \<Rightarrow> string list" where
  "cleanStep rooted out e =
     (if e = [] \<or> e = ''.'' then out
      else if e = ''..'' then
        (case out of
           [] \<Rightarrow> if rooted then [] else [''..'']
         | t # ts \<Rightarrow> if t = ''..'' then (if rooted then out else ''..'' # out) else ts)
      else e # out)"

definition IsAbs :: "string \<Rightarrow> bool" where
  "IsAbs path = prefix [Separator] path"

definition Clean :: "string \<Rightarrow> string" where
  "Clean path =
     (if path = [] then ''.''
      else let rooted = IsAbs path;
               out = foldl (cleanStep rooted) [] (splitSep path)
           in if rooted then Separator # joinSep (rev out)
              else if out = [] then ''.''
              else joinSep (rev out))"

text \<open>
  \<^verbatim>\<open>filepath.Join\<close>: the elements from the first non-empty one on are joined with the
  separator and cleaned; with no non-empty element the result is the empty string.
\<close>

fun Join :: "string list \<Rightarrow> string" where
  "Join [] = []"
| "Join (e # es) = (if e \<noteq> [] then Clean (joinSep (e # es)) else Join es)"

section \<open>Addresses and errors\<close>

text \<open>
  A \<^verbatim>\<open>caddy.NetworkAddress\<close>: the network, the host and the first and last port of
  the range the address names.
\<close>

record NetworkAddress =
  Network :: string
  Host :: string
  StartPort :: nat
  EndPort :: nat

text \<open>\<^verbatim>\<open>caddy.NetworkAddress.PortRangeSize\<close>.\<close>

definition PortRangeSize :: "NetworkAddress \<Rightarrow> nat" where
  "PortRangeSize na =
     (if EndPort na < StartPort na then 0 else (EndPort na - StartPort na) + 1)"

text \<open>
  Go errors as values: \<^verbatim>\<open>errors.New\<close> and a \<^verbatim>\<open>fmt.Errorf\<close> without verbs give an
  \<open>errorString\<close>, a failed system call on a path gives an \<^verbatim>\<open>*os.PathError\<close>.
  \<open>Error_text\<close> is the method \<^verbatim>\<open>Error()\<close>.
\<close>

datatype error = errorString string | PathError string string string

fun Error_text :: "error \<Rightarrow> string" where
  "Error_text (errorString s) = s"
| "Error_text (PathError opn path why) = opn @ '' '' @ path @ '': '' @ why"

text \<open>
  The one error \<^verbatim>\<open>Start\<close> makes,
  \<^verbatim>\<open>fmt.Errorf("tftp: failed to listen on %s: %v", s.addr, err)\<close>, kept with its two
  operands.
\<close>

datatype listen_error = ListenFailed NetworkAddress "error option"

text \<open>
  \<^verbatim>\<open>filepath.Abs\<close>: an absolute path is cleaned; a relative one is joined to the working
  directory, and the call fails with the empty string when \<^verbatim>\<open>os.Getwd\<close> fails. The
  result of \<^verbatim>\<open>os.Getwd\<close> is the parameter \<open>getwd\<close>.
\<close>

definition Abs :: "error + string \<Rightarrow> string \<Rightarrow> string \<times> error option" where
  "Abs getwd path =
     (if IsAbs path then (Clean path, None)
      else (case getwd of
              Inl err \<Rightarrow> ([], Some err)
            | Inr wd \<Rightarrow> (Join [wd, path], None)))"

text \<open>\<^verbatim>\<open>strings.HasPrefix(s, prefix)\<close>.\<close>

definition HasPrefix :: "string \<Rightarrow> string \<Rightarrow> bool" where
  "HasPrefix s pre = prefix pre s"

section \<open>Loggers\<close>

text \<open>
  A \<^verbatim>\<open>*zap.Logger\<close> is known by its name; every call of \<^verbatim>\<open>Debug\<close>, \<^verbatim>\<open>Info\<close> or
  \<^verbatim>\<open>Error\<close> is one \<open>entry\<close>, appended to the list of entries emitted so far. Two
  fields are rendered by the standard library (\<^verbatim>\<open>net.IP.String\<close>,
  \<^verbatim>\<open>time.Duration.String\<close>) before they reach \<^verbatim>\<open>zap.String\<close>; their entries keep the
  value that is rendered (\<open>zap_IP_String\<close>, \<open>zap_Duration_String\<close>), and so does
  the field of \<^verbatim>\<open>NetworkAddress.String\<close> (\<open>zap_Addr_String\<close>).
\<close>

type_synonym Logger = string

definition Named :: "Logger \<Rightarrow> string \<Rightarrow> Logger" where
  "Named l s = (if s = [] then l else if l = [] then s else l @ ''.'' @ s)"

datatype level = DebugLevel | InfoLevel | ErrorLevel

datatype field =
    zap_String string
  | zap_Int int
  | zap_Int64 int
  | zap_IP_String "nat list"
  | zap_Duration_String int
  | zap_Addr_String NetworkAddress

record entry =
  logger :: Logger
  lvl :: level
  msg :: string
  entry_fields :: "(string \<times> field) list"

section \<open>The server types\<close>

record Server =
  Listen :: string
  Root :: string
  Timeout :: int
  Logs :: bool

text \<open>
  The embedded \<^verbatim>\<open>*tftp.Server\<close> of the transport library: the duration
  \<^verbatim>\<open>Provision\<close> passes to \<^verbatim>\<open>SetTimeout\<close>, and whether \<^verbatim>\<open>Shutdown\<close> has been called
  on it.
\<close>

record tftp_Server =
  timeout :: int
  shutdown :: bool

record tftpServer =
  embedded :: tftp_Server
  name :: string
  root :: string
  addr :: NetworkAddress
  log :: Logger
  accessLog :: "Logger option"

section \<open>The path sanitizer\<close>

text \<open>
  \<^verbatim>\<open>safePath\<close> returns the pair of Go's two results and the entry its \<^verbatim>\<open>Debug\<close> call
  emits. The result of \<^verbatim>\<open>os.Getwd\<close>, which \<^verbatim>\<open>filepath.Abs\<close> may consult, is the first
  parameter.
\<close>

definition safePath ::
  "error + string \<Rightarrow> tftpServer \<Rightarrow> string \<Rightarrow> (string \<times> error option) \<times> entry list" where
  "safePath getwd s filename =
     (let p = Join [root s, filename];
          (c, err) = Abs getwd p;
          dbg = \<lparr>logger = log s, lvl = DebugLevel, msg = ''sanitized path join'',
                 entry_fields = [(''root'', zap_String (root s)),
                           (''filename'', zap_String filename),
                           (''result'', zap_String c)]\<rparr>
      in if err \<noteq> None \<or> \<not> HasPrefix c (root s)
         then ((c, Some (errorString ''unsafe or invalid filename specified'')), [dbg])
         else ((c, None), [dbg]))"

text \<open>
  \<open>pathPrefix R c\<close>: the path \<open>c\<close> is \<open>R\<close> or lies below it, that is, \<open>c\<close> goes on
  after \<open>R\<close> with a separator (for the root directory, whose name ends in the
  separator, right after it).
\<close>

definition pathPrefix :: "string \<Rightarrow> string \<Rightarrow> bool" where
  "pathPrefix R c = (c = R \<or> prefix (R @ [Separator]) c \<or> (R = [Separator] \<and> prefix R c))"

text \<open>
  An element \<^verbatim>\<open>filepath.Clean\<close> keeps as it is: not empty, not \<open>.\<close>, not \<open>..\<close>, and
  without a separator.
\<close>

definition proper :: "string \<Rightarrow> bool" where
  "proper e = (e \<noteq> [] \<and> e \<noteq> ''.'' \<and> e \<noteq> ''..'' \<and> Separator \<notin> set e)"

section \<open>The transfer handlers\<close>

text \<open>
  What the program touches besides its own values: the files by path (a file is its
  bytes; only regular files are kept, and permissions are left out), the entries
  emitted so far, and the addresses on which a listener is open.
\<close>

record world =
  files :: "string \<rightharpoonup> string"
  sink :: "entry list"
  listeners :: "NetworkAddress list"

text \<open>
  The surroundings of one request: the result \<^verbatim>\<open>os.Getwd\<close> would give, and what
  \<^verbatim>\<open>time.Now\<close> gives at the entry of the handler and in its deferred function.
\<close>

record env =
  Getwd :: "error + string"
  Now_start :: int
  Now_end :: int

record UDPAddr =
  IP :: "nat list"
  Port :: int

text \<open>
  The \<^verbatim>\<open>io.ReaderFrom\<close> of a download. \<open>out_RemoteAddr\<close> is the address when the
  value is a \<^verbatim>\<open>tftp.OutgoingTransfer\<close>, \<open>ReadFrom\<close> what the transport answers for the
  bytes of the opened file: the count it sent and its error.
\<close>

record OutgoingTransfer =
  out_RemoteAddr :: "UDPAddr option"
  ReadFrom :: "string \<Rightarrow> int \<times> error option"

text \<open>
  The \<^verbatim>\<open>io.WriterTo\<close> of an upload. \<open>in_RemoteAddr\<close> is the address when the value
  is a \<^verbatim>\<open>tftp.IncomingTransfer\<close>; \<open>WriteTo\<close> gives the bytes the transport writes
  to the file, their count and its error.
\<close>

record IncomingTransfer =
  in_RemoteAddr :: "UDPAddr option"
  WriteTo :: "string \<times> int \<times> error option"

text \<open>\<^verbatim>\<open>os.Open\<close>: the bytes of the file, or an error when the path names none.\<close>

definition os_Open :: "(string \<rightharpoonup> string) \<Rightarrow> string \<Rightarrow> error + string" where
  "os_Open fs p =
     (case fs p of
        None \<Rightarrow> Inl (PathError ''open'' p ''no such file or directory'')
      | Some content \<Rightarrow> Inr content)"

text \<open>
  \<^verbatim>\<open>os.OpenFile(p, O_WRONLY|O_CREATE|O_EXCL, 0644)\<close>: fails when the path exists,
  and creates an empty file otherwise.
\<close>

definition os_OpenFile_excl ::
  "(string \<rightharpoonup> string) \<Rightarrow> string \<Rightarrow> error + (string \<rightharpoonup> string)" where
  "os_OpenFile_excl fs p =
     (case fs p of
        Some content \<Rightarrow> Inl (PathError ''open'' p ''file exists'')
      | None \<Rightarrow> Inr (fs(p \<mapsto> [])))"

definition emit :: "entry \<Rightarrow> world \<Rightarrow> world" where
  "emit e w = w\<lparr>sink := sink w @ [e]\<rparr>"

text \<open>\<^verbatim>\<open>s.log.Error(err.Error(), zap.String("filename", filename))\<close>.\<close>

definition log_Error :: "tftpServer \<Rightarrow> error \<Rightarrow> string \<Rightarrow> world \<Rightarrow> world" where
  "log_Error s err filename w =
     emit \<lparr>logger = log s, lvl = ErrorLevel, msg = Error_text err,
           entry_fields = [(''filename'', zap_String filename)]\<rparr> w"

text \<open>
  The deferred function of a handler: one \<^verbatim>\<open>Info\<close> entry of the access logger, with
  the count \<open>n\<close> as the handler leaves it. Without a \<^verbatim>\<open>RemoteAddr\<close> the address
  variables keep their zero values.
\<close>

definition access_entry ::
  "Logger \<Rightarrow> UDPAddr option \<Rightarrow> string \<Rightarrow> string \<Rightarrow> string \<Rightarrow> int \<Rightarrow> int \<Rightarrow> entry" where
  "access_entry al remote method filename counter n d =
     \<lparr>logger = al, lvl = InfoLevel, msg = ''handled request'',
      entry_fields =
        [(''remote_ip'', zap_IP_String (case remote of None \<Rightarrow> [] | Some a \<Rightarrow> IP a)),
         (''remote_port'', zap_Int (case remote of None \<Rightarrow> 0 | Some a \<Rightarrow> Port a)),
         (''method'', zap_String method),
         (''uri'', zap_String filename),
         (counter, zap_Int64 n),
         (''duration'', zap_Duration_String d)]\<rparr>"

text \<open>
  The statements of \<^verbatim>\<open>readHandler\<close> after the \<^verbatim>\<open>defer\<close>: the count \<open>n\<close>, the
  returned error and the world they leave.
\<close>

definition readHandler_body ::
  "env \<Rightarrow> tftpServer \<Rightarrow> string \<Rightarrow> OutgoingTransfer \<Rightarrow> world \<Rightarrow> int \<times> error option \<times> world" where
  "readHandler_body ev s filename rf w =
     (case safePath (Getwd ev) s filename of
        ((p, err), dbg) \<Rightarrow>
          let w1 = w\<lparr>sink := sink w @ dbg\<rparr> in
          (case err of
             Some e \<Rightarrow> (0, Some e, log_Error s e filename w1)
           | None \<Rightarrow>
               (case os_Open (files w1) p of
                  Inl e \<Rightarrow> (0, Some e, log_Error s e filename w1)
                | Inr content \<Rightarrow>
                    (case ReadFrom rf content of
                       (n, Some e) \<Rightarrow> (n, Some e, log_Error s e filename w1)
                     | (n, None) \<Rightarrow> (n, None, w1)))))"

definition readHandler ::
  "env \<Rightarrow> tftpServer \<Rightarrow> string \<Rightarrow> OutgoingTransfer \<Rightarrow> world \<Rightarrow> error option \<times> world" where
  "readHandler ev s filename rf w =
     (case readHandler_body ev s filename rf w of
        (n, err, w') \<Rightarrow>
          (case accessLog s of
             None \<Rightarrow> (err, w')
           | Some al \<Rightarrow>
               (err, emit (access_entry al (out_RemoteAddr rf) ''GET'' filename
                             ''bytes_written'' n (Now_end ev - Now_start ev)) w')))"

definition writeHandler_body ::
  "env \<Rightarrow> tftpServer \<Rightarrow> string \<Rightarrow> IncomingTransfer \<Rightarrow> world \<Rightarrow> int \<times> error option \<times> world" where
  "writeHandler_body ev s filename wt w =
     (case safePath (Getwd ev) s filename of
        ((p, err), dbg) \<Rightarrow>
          let w1 = w\<lparr>sink := sink w @ dbg\<rparr> in
          (case err of
             Some e \<Rightarrow> (0, Some e, log_Error s e filename w1)
           | None \<Rightarrow>
               (case os_OpenFile_excl (files w1) p of
                  Inl e \<Rightarrow> (0, Some e, log_Error s e filename w1)
                | Inr fs \<Rightarrow>
                    (case WriteTo wt of
                       (content, n, werr) \<Rightarrow>
                         let w2 = w1\<lparr>files := fs(p \<mapsto> content)\<rparr> in
                         (case werr of
                            Some e \<Rightarrow> (n, Some e, log_Error s e filename w2)
                          | None \<Rightarrow> (n, None, w2))))))"

definition writeHandler ::
  "env \<Rightarrow> tftpServer \<Rightarrow> string \<Rightarrow> IncomingTransfer \<Rightarrow> world \<Rightarrow> error option \<times> world" where
  "writeHandler ev s filename wt w =
     (case writeHandler_body ev s filename wt w of
        (n, err, w') \<Rightarrow>
          (case accessLog s of
             None \<Rightarrow> (err, w')
           | Some al \<Rightarrow>
               (err, emit (access_entry al (in_RemoteAddr wt) ''PUT'' filename
                             ''bytes_read'' n (Now_end ev - Now_start ev)) w')))"

section \<open>The app: Provision, Start, Stop\<close>

text \<open>
  A goroutine of the \<^verbatim>\<open>errgroup.Group\<close>: the server it serves, the address of its
  listener, and whether \<^verbatim>\<open>Serve\<close> has returned, with which error. The group keeps the
  goroutines in the order \<^verbatim>\<open>Go\<close> launched them and the first error one of them returned
  (\<^verbatim>\<open>errOnce\<close>).
\<close>

datatype gstate = Running | Returned "error option"

record goroutine =
  g_server :: string
  g_conn :: NetworkAddress
  g_state :: gstate

record Group =
  goroutines :: "goroutine list"
  err :: "error option"

record Context =
  ctx_Logger :: Logger

text \<open>
  \<open>Servers\<close> is the configured map, as the list of its entries in the order the
  \<^verbatim>\<open>range\<close> loop visits them.
\<close>

record TFTP =
  Servers :: "(string \<times> Server) list"
  servers :: "tftpServer list"
  ctx :: "Context option"
  errGroup :: "Group option"

text \<open>
  The loop of \<^verbatim>\<open>Provision\<close>. \<open>parse\<close> is
  \<^verbatim>\<open>caddy.ParseNetworkAddressWithDefaults(_, "udp", 69)\<close>; the last argument is
  \<^verbatim>\<open>app.servers\<close>, which an early return leaves as it is by then.
\<close>

fun Provision_loop ::
  "error + string \<Rightarrow> (string \<Rightarrow> error + NetworkAddress) \<Rightarrow> Context \<Rightarrow>
   (string \<times> Server) list \<Rightarrow> tftpServer list \<Rightarrow> error option \<times> tftpServer list" where
  "Provision_loop getwd parse c [] acc = (None, acc)"
| "Provision_loop getwd parse c ((nm, srv) # rest) acc =
     (case Abs getwd (Root srv) of
        (r, Some e) \<Rightarrow> (Some e, acc)
      | (r, None) \<Rightarrow>
          (case parse (Listen srv) of
             Inl e \<Rightarrow> (Some e, acc)
           | Inr a \<Rightarrow>
               if Network a \<noteq> ''udp''
               then (Some (errorString ''only 'udp' is supported in the listener addr''), acc)
               else
                 let lg = Named (ctx_Logger c) nm;
                     s = \<lparr>embedded = \<lparr>timeout = Timeout srv, shutdown = False\<rparr>,
                          name = nm, root = r, addr = a, log = lg,
                          accessLog = Some (Named lg ''access'')\<rparr>
                 in Provision_loop getwd parse c rest (acc @ [s])))"

definition Provision ::
  "error + string \<Rightarrow> (string \<Rightarrow> error + NetworkAddress) \<Rightarrow> Context \<Rightarrow> TFTP \<Rightarrow>
   error option \<times> TFTP" where
  "Provision getwd parse c app =
     (case Provision_loop getwd parse c (Servers app) (servers app) of
        (e, ss) \<Rightarrow> (e, app\<lparr>servers := ss, ctx := Some c\<rparr>))"

text \<open>
  What \<^verbatim>\<open>s.addr.Listen(app.ctx, 0, net.ListenConfig{})\<close> gives: an error, a listener
  that is not a \<^verbatim>\<open>net.PacketConn\<close>, or one that is.
\<close>

datatype listen_result = ListenError error | NotPacketConn | PacketConn

text \<open>\<^verbatim>\<open>errGroup.Go\<close>: one more goroutine, running.\<close>

definition Go :: "Group \<Rightarrow> tftpServer \<Rightarrow> Group" where
  "Go g s = g\<lparr>goroutines := goroutines g @
               [\<lparr>g_server = name s, g_conn = addr s, g_state = Running\<rparr>]\<rparr>"

text \<open>
  The loop of \<^verbatim>\<open>Start\<close>. \<open>listen\<close> answers a call of \<^verbatim>\<open>Listen\<close> from the listeners
  open by then. A listener that is not a \<^verbatim>\<open>net.PacketConn\<close> stays open when the loop
  returns its error. The entry \<open>server running\<close> is emitted by the goroutine, not by
  \<^verbatim>\<open>Start\<close>, and is not part of the loop.
\<close>

fun Start_loop ::
  "(NetworkAddress list \<Rightarrow> NetworkAddress \<Rightarrow> listen_result) \<Rightarrow> tftpServer list \<Rightarrow>
   Group \<Rightarrow> world \<Rightarrow> listen_error option \<times> Group \<times> world" where
  "Start_loop listen [] g w = (None, g, w)"
| "Start_loop listen (s # rest) g w =
     (case listen (listeners w) (addr s) of
        ListenError e \<Rightarrow> (Some (ListenFailed (addr s) (Some e)), g, w)
      | NotPacketConn \<Rightarrow>
          (Some (ListenFailed (addr s) None), g, w\<lparr>listeners := listeners w @ [addr s]\<rparr>)
      | PacketConn \<Rightarrow>
          Start_loop listen rest (Go g s) (w\<lparr>listeners := listeners w @ [addr s]\<rparr>))"














section \<open>The earlier Provision\<close>

text \<open>
  The revision of \<^verbatim>\<open>Provision\<close> that served files through
  \<^verbatim>\<open>tftp.FilesystemHandler\<close> made one server for every port offset of the range. Its
  server had no root and no access logger; \<open>fsh\<close> says whether
  \<^verbatim>\<open>tftp.FilesystemHandler(srv.Root)\<close> fails. The body of the inner loop does not use
  the offset, so the loop is written over the number of offsets still to come.
\<close>

record tftpServer_part_000 =
  name_0 :: string
  addr_0 :: NetworkAddress
  log_0 :: Logger

fun portOffset_loop ::
  "(string \<Rightarrow> error option) \<Rightarrow> Context \<Rightarrow> string \<Rightarrow> Server \<Rightarrow> NetworkAddress \<Rightarrow> nat \<Rightarrow>
   tftpServer_part_000 list \<Rightarrow> error option \<times> tftpServer_part_000 list" where
  "portOffset_loop fsh c nm srv a 0 acc = (None, acc)"
| "portOffset_loop fsh c nm srv a (Suc k) acc =
     (case fsh (Root srv) of
        Some e \<Rightarrow> (Some e, acc)
      | None \<Rightarrow>
          portOffset_loop fsh c nm srv a k
            (acc @ [\<lparr>name_0 = nm, addr_0 = a, log_0 = Named (ctx_Logger c) nm\<rparr>]))"

fun Provision_part_000 ::
  "(string \<Rightarrow> error option) \<Rightarrow> (string \<Rightarrow> error + NetworkAddress) \<Rightarrow> Context \<Rightarrow>
   (string \<times> Server) list \<Rightarrow> tftpServer_part_000 list \<Rightarrow>
   error option \<times> tftpServer_part_000 list" where
  "Provision_part_000 fsh parse c [] acc = (None, acc)"
| "Provision_part_000 fsh parse c ((nm, srv) # rest) acc =
     (case parse (Listen srv) of
        Inl e \<Rightarrow> (Some e, acc)
      | Inr a \<Rightarrow>
          if Network a \<noteq> ''udp''
          then (Some (errorString ''only 'udp' is supported in the listener addr''), acc)
          else
            (case portOffset_loop fsh c nm srv a (PortRangeSize a) acc of
               (Some e, acc') \<Rightarrow> (Some e, acc')
             | (None, acc') \<Rightarrow> Provision_part_000 fsh parse c rest acc'))"

section \<open>Values for the examples\<close>

text \<open>
  What \<^verbatim>\<open>caddy.ParseNetworkAddressWithDefaults(_, "udp", 69)\<close> answers for the listen
  strings the examples use: the empty string and \<open>:69\<close> are port 69 on every
  interface, \<open>:6900-6901\<close> is a range of two ports.
\<close>

definition parse_example :: "string \<Rightarrow> error + NetworkAddress" where
  "parse_example l =
     (if l = [] \<or> l = '':69''
      then Inr \<lparr>Network = ''udp'', Host = [], StartPort = 69, EndPort = 69\<rparr>
      else if l = '':6900-6901''
      then Inr \<lparr>Network = ''udp'', Host = [], StartPort = 6900, EndPort = 6901\<rparr>
      else Inl (errorString ''not an address of the examples''))"

text \<open>A server as \<^verbatim>\<open>Provision\<close> makes it for the root \<open>/srv/tftp\<close> and the name \<open>a\<close>.\<close>

definition server_example :: tftpServer where
  "server_example =
     \<lparr>embedded = \<lparr>timeout = 0, shutdown = False\<rparr>, name = ''a'', root = ''/srv/tftp'',
      addr = \<lparr>Network = ''udp'', Host = [], StartPort = 69, EndPort = 69\<rparr>,
      log = ''tftp.a'', accessLog = Some ''tftp.a.access''\<rparr>"

text \<open>
  Three configurations: one server with access logging off; two servers on the same
  address; one server on a range of two ports.
\<close>

definition app_logs_off :: TFTP where
  "app_logs_off =
     \<lparr>Servers = [(''a'', \<lparr>Listen = [], Root = ''/srv/tftp'', Timeout = 0, Logs = False\<rparr>)],
      servers = [], ctx = None, errGroup = None\<rparr>"

definition app_repeated :: TFTP where
  "app_repeated =
     \<lparr>Servers = [(''a'', \<lparr>Listen = '':69'', Root = ''/srv/a'', Timeout = 0, Logs = False\<rparr>),
                 (''b'', \<lparr>Listen = '':69'', Root = ''/srv/b'', Timeout = 0, Logs = False\<rparr>)],
      servers = [], ctx = None, errGroup = None\<rparr>"

definition app_range :: TFTP where
  "app_range =
     \<lparr>Servers = [(''a'', \<lparr>Listen = '':6900-6901'', Root = ''/srv/tftp'', Timeout = 0,
                         Logs = False\<rparr>)],
      servers = [], ctx = None, errGroup = None\<rparr>"

text \<open>
  A request: the clock, a client, a download that sends every byte and an upload of
  three bytes.
\<close>

definition env_example :: env where
  "env_example = \<lparr>Getwd = Inr ''/'', Now_start = 10, Now_end = 25\<rparr>"

definition client_example :: UDPAddr where
  "client_example = \<lparr>IP = [10, 0, 0, 7], Port = 40000\<rparr>"

definition download_example :: OutgoingTransfer where
  "download_example =
     \<lparr>out_RemoteAddr = Some client_example, ReadFrom = (\<lambda>b. (int (length b), None))\<rparr>"

definition upload_example :: IncomingTransfer where
  "upload_example = \<lparr>in_RemoteAddr = Some client_example, WriteTo = (''new'', 3, None)\<rparr>"

definition world_example :: world where
  "world_example =
     \<lparr>files = [''/srv/tftp/boot.bin'' \<mapsto> ''abc'', ''/srv/tftp/new.img'' \<mapsto> ''old''],
      sink = [], listeners = []\<rparr>"



section \<open>Splitting, joining and cleaning\<close>

lemma splitSep_nonempty: "splitSep s \<noteq> []"
  by (induction s) (auto split: list.splits)

lemma splitSep_append_sep: "splitSep (a @ Separator # b) = splitSep a @ splitSep b"
proof (induction a)
  case Nil
  show ?case by simp
next
  case (Cons c cs)
  obtain e es where ees: "splitSep cs = e # es"
    using splitSep_nonempty [of cs] by (cases "splitSep cs") auto
  show ?case using Cons ees by simp
qed

lemma splitSep_no_sep: "Separator \<notin> set e \<Longrightarrow> splitSep e = [e]"
  by (induction e) auto

lemma splitSep_elems: "e \<in> set (splitSep s) \<Longrightarrow> Separator \<notin> set e"
proof (induction s arbitrary: e)
  case Nil
  then show ?case by simp
next
  case (Cons c cs)
  obtain x xs where xxs: "splitSep cs = x # xs"
    using splitSep_nonempty [of cs] by (cases "splitSep cs") auto
  show ?case
  proof (cases "c = Separator")
    case True
    with Cons show ?thesis by auto
  next
    case False
    with Cons.prems xxs have "e = c # x \<or> e \<in> set xs" by simp
    moreover have "Separator \<notin> set x" using Cons.IH [of x] xxs by simp
    moreover have "e \<in> set xs \<Longrightarrow> Separator \<notin> set e" using Cons.IH [of e] xxs by simp
    ultimately show ?thesis using False by auto
  qed
qed

lemma joinSep_Cons: "es \<noteq> [] \<Longrightarrow> joinSep (e # es) = e @ Separator # joinSep es"
  by (cases es) auto

lemma joinSep_append:
  "xs \<noteq> [] \<Longrightarrow> ys \<noteq> [] \<Longrightarrow> joinSep (xs @ ys) = joinSep xs @ Separator # joinSep ys"
proof (induction xs)
  case Nil
  then show ?case by simp
next
  case (Cons x xs)
  show ?case
  proof (cases "xs = []")
    case True
    with Cons.prems show ?thesis by (simp add: joinSep_Cons)
  next
    case False
    with Cons show ?thesis by (simp add: joinSep_Cons)
  qed
qed

lemma splitSep_joinSep:
  "es \<noteq> [] \<Longrightarrow> list_all (\<lambda>e. Separator \<notin> set e) es \<Longrightarrow> splitSep (joinSep es) = es"
proof (induction es)
  case Nil
  then show ?case by simp
next
  case (Cons e es)
  show ?case
  proof (cases "es = []")
    case True
    with Cons.prems show ?thesis by (simp add: splitSep_no_sep)
  next
    case False
    with Cons show ?thesis
      by (simp add: joinSep_Cons splitSep_append_sep splitSep_no_sep)
  qed
qed

lemma cleanStep_proper:
  "list_all proper out \<Longrightarrow> Separator \<notin> set e \<Longrightarrow> list_all proper (cleanStep True out e)"
  by (auto simp: cleanStep_def proper_def split: list.splits)

lemma foldl_cleanStep_proper:
  "list_all proper out \<Longrightarrow> list_all (\<lambda>e. Separator \<notin> set e) es \<Longrightarrow>
   list_all proper (foldl (cleanStep True) out es)"
  by (induction es arbitrary: out) (auto simp: cleanStep_proper)

lemma foldl_cleanStep_no_dotdot:
  "''..'' \<notin> set es \<Longrightarrow>
   foldl (cleanStep r) out es = rev (filter (\<lambda>e. e \<noteq> [] \<and> e \<noteq> ''.'') es) @ out"
  by (induction es arbitrary: out) (auto simp: cleanStep_def)

lemma Clean_rooted:
  "Clean (Separator # p) =
   Separator # joinSep (rev (foldl (cleanStep True) [] (splitSep p)))"
  by (simp add: Clean_def IsAbs_def cleanStep_def Let_def)

lemma norm_proper: "list_all proper (foldl (cleanStep True) [] (splitSep p))"
  by (rule foldl_cleanStep_proper) (auto simp: list_all_iff splitSep_elems)

lemma Clean_proper:
  assumes "list_all proper es"
  shows "Clean (Separator # joinSep es) = Separator # joinSep es"
proof (cases "es = []")
  case True
  then show ?thesis by (simp add: Clean_rooted cleanStep_def)
next
  case False
  have ns: "list_all (\<lambda>e. Separator \<notin> set e) es"
    using assms by (auto simp: list_all_iff proper_def)
  have nd: "''..'' \<notin> set es" using assms by (auto simp: list_all_iff proper_def)
  have fl: "filter (\<lambda>e. e \<noteq> [] \<and> e \<noteq> ''.'') es = es"
    using assms by (auto simp: list_all_iff proper_def intro: filter_True)
  show ?thesis
    using False by (simp add: Clean_rooted splitSep_joinSep [OF False ns]
        foldl_cleanStep_no_dotdot [OF nd] fl)
qed

lemma Clean_idem_rooted: "Clean (Clean (Separator # p)) = Clean (Separator # p)"
proof -
  have "list_all proper (rev (foldl (cleanStep True) [] (splitSep p)))"
    using norm_proper [of p] by simp
  then show ?thesis unfolding Clean_rooted [of p] by (rule Clean_proper)
qed

lemma IsAbs_Cons: "IsAbs p \<longleftrightarrow> (\<exists>q. p = Separator # q)"
  by (cases p) (auto simp: IsAbs_def)

lemma IsAbs_Clean: "IsAbs p \<Longrightarrow> IsAbs (Clean p)"
  by (auto simp: IsAbs_Cons Clean_rooted)

lemmas path_eval =
  Clean_def IsAbs_def Separator_def cleanStep_def HasPrefix_def Abs_def Let_def

lemmas example_defs = server_example_def env_example_def client_example_def
  download_example_def upload_example_def world_example_def

section \<open>The path sanitizer: what it accepts\<close>

lemma Join_rooted:
  "Join [Separator # r, f] = Clean (Separator # r @ Separator # f)"
  by simp

text \<open>With an absolute root the joined path is absolute and clean, and the working
  directory is never asked for.\<close>

lemma safePath_rooted:
  assumes "IsAbs (root s)"
  shows "fst (safePath getwd s f) =
     (let c = Join [root s, f]
      in if HasPrefix c (root s) then (c, None)
         else (c, Some (errorString ''unsafe or invalid filename specified'')))"
proof -
  obtain r where r: "root s = Separator # r" using assms by (auto simp: IsAbs_Cons)
  have abs: "IsAbs (Join [root s, f])"
    unfolding r Join_rooted by (rule IsAbs_Clean) (simp add: IsAbs_def)
  have idem: "Clean (Join [root s, f]) = Join [root s, f]"
    unfolding r Join_rooted using Clean_idem_rooted [of "r @ Separator # f"] by simp
  show ?thesis
    by (simp add: safePath_def Abs_def abs idem Let_def del: Join.simps)
qed


text \<open>
  With an absolute working directory, which is what \<^verbatim>\<open>os.Getwd\<close> returns,
  \<^verbatim>\<open>filepath.Abs\<close> does not fail and its result is absolute and clean.
\<close>

lemma Abs_absolute_clean:
  assumes "IsAbs wd" and "Abs (Inr wd) p = (R, e)"
  shows "e = None \<and> IsAbs R \<and> Clean R = R"
proof (cases "IsAbs p")
  case True
  then obtain q where q: "p = Separator # q" by (auto simp: IsAbs_Cons)
  have R: "R = Clean (Separator # q)" and e: "e = None"
    using assms(2) True unfolding Abs_def q by simp_all
  show ?thesis
    unfolding R using e Clean_idem_rooted [of q] IsAbs_Clean [of "Separator # q"]
    by (simp add: IsAbs_def)
next
  case False
  obtain v where wd: "wd = Separator # v" using assms(1) by (auto simp: IsAbs_Cons)
  have R: "R = Clean (Separator # v @ Separator # p)" and e: "e = None"
    using assms(2) False unfolding wd Abs_def by simp_all
  show ?thesis
    unfolding R using e Clean_idem_rooted [of "v @ Separator # p"]
      IsAbs_Clean [of "Separator # v @ Separator # p"]
    by (simp add: IsAbs_def)
qed

text \<open>
  Claim C1. For the root \<open>/srv/tftp\<close> the filename \<open>../tftp-other/x\<close> names a file
  of the sibling directory \<open>/srv/tftp-other\<close>, outside the root. \<^verbatim>\<open>safePath\<close> returns
  that path with no error: the joined path begins with the characters of the root,
  which is all \<^verbatim>\<open>strings.HasPrefix\<close> looks at. The filename \<open>../../etc/passwd\<close>, whose
  path does not begin with them, is rejected.
\<close>

theorem safePath_accepts_sibling_directory:
  "fst (safePath getwd server_example ''../tftp-other/x'') = (''/srv/tftp-other/x'', None)
   \<and> \<not> pathPrefix (root server_example) ''/srv/tftp-other/x''
   \<and> fst (safePath getwd server_example ''../../etc/passwd'') =
       (''/etc/passwd'', Some (errorString ''unsafe or invalid filename specified''))"
  by (simp add: safePath_def server_example_def pathPrefix_def path_eval)

theorem safePath_accepts_sibling_directory_witness:
  "snd (fst (safePath (Inr ''/'') server_example ''../tftp-other/x'')) = None"
  using safePath_accepts_sibling_directory [of "Inr ''/''"] by simp



text \<open>
  Claim C3 as stated, for every absolute root, fails for an absolute root that is not
  clean. With the root \<open>/srv//tftp\<close> the filename \<open>boot.bin\<close>, which has no \<open>..\<close>,
  is rejected, because the cleaned path \<open>/srv/tftp/boot.bin\<close> does not begin with the
  characters of the root.
\<close>

theorem safePath_rejects_below_unclean_root:
  "IsAbs (root (server_example\<lparr>root := ''/srv//tftp''\<rparr>))
   \<and> ''..'' \<notin> set (splitSep ''boot.bin'')
   \<and> fst (safePath (Inr ''/'') (server_example\<lparr>root := ''/srv//tftp''\<rparr>) ''boot.bin'') =
       (''/srv/tftp/boot.bin'', Some (errorString ''unsafe or invalid filename specified''))"
  by (simp add: safePath_def server_example_def path_eval)

text \<open>
  Claim C3, amended. For every root that is absolute and clean (\<^verbatim>\<open>filepath.Clean\<close>
  leaves it as it is, which holds of every root \<^verbatim>\<open>Provision\<close> stores, the result of
  \<^verbatim>\<open>filepath.Abs\<close>) and every filename none of whose elements is \<open>..\<close>, \<^verbatim>\<open>safePath\<close>
  returns the joined path with no error, and that path is the root or lies below it.
  A filename that begins with a separator is covered: it is joined below the root
  like any other.
\<close>

theorem safePath_accepts_below_root:
  assumes "IsAbs (root s)" and "Clean (root s) = root s"
    and "''..'' \<notin> set (splitSep filename)"
  shows "fst (safePath getwd s filename) = (Join [root s, filename], None)
         \<and> pathPrefix (root s) (Join [root s, filename])"
proof -
  obtain r where r: "root s = Separator # r" using assms(1) by (auto simp: IsAbs_Cons)
  define st where "st = foldl (cleanStep True) [] (splitSep r)"
  define fs where "fs = filter (\<lambda>e. e \<noteq> [] \<and> e \<noteq> ''.'') (splitSep filename)"
  define c where "c = Join [root s, filename]"
  define R where "R = root s"
  have "Clean (Separator # r) = Separator # r" using assms(2) r by simp
  then have R: "R = Separator # joinSep (rev st)"
    unfolding R_def r st_def Clean_rooted by simp
  have "c = Clean (Separator # r @ Separator # filename)"
    unfolding c_def r by (rule Join_rooted)
  also have "\<dots> = Separator # joinSep (rev (foldl (cleanStep True) st (splitSep filename)))"
    unfolding Clean_rooted st_def by (simp add: splitSep_append_sep)
  also have "foldl (cleanStep True) st (splitSep filename) = rev fs @ st"
    unfolding fs_def by (rule foldl_cleanStep_no_dotdot [OF assms(3)])
  finally have J: "c = Separator # joinSep (rev st @ fs)" by simp
  have pp: "pathPrefix R c"
  proof (cases "fs = []")
    case True
    then show ?thesis by (simp add: pathPrefix_def R J)
  next
    case fs: False
    show ?thesis
    proof (cases "st = []")
      case True
      then show ?thesis by (simp add: pathPrefix_def R J)
    next
      case False
      then show ?thesis using fs by (simp add: pathPrefix_def R J joinSep_append)
    qed
  qed
  have "prefix R c"
    using pp by (auto simp: pathPrefix_def dest: append_prefixD)
  then have "HasPrefix (Join [root s, filename]) (root s)"
    unfolding HasPrefix_def c_def R_def .
  then have "fst (safePath getwd s filename) = (Join [root s, filename], None)"
    using safePath_rooted [OF assms(1), of getwd filename]
    by (simp add: Let_def del: Join.simps)
  then show ?thesis using pp unfolding c_def R_def by blast
qed

theorem safePath_accepts_below_root_witness:
  "fst (safePath (Inr ''/'') server_example ''pxe/./boot.bin'') =
     (''/srv/tftp/pxe/boot.bin'', None)
   \<and> pathPrefix ''/srv/tftp'' ''/srv/tftp/pxe/boot.bin''"
proof -
  have "IsAbs (root server_example)" "Clean (root server_example) = root server_example"
    "''..'' \<notin> set (splitSep ''pxe/./boot.bin'')"
    by (simp_all add: server_example_def path_eval)
  from safePath_accepts_below_root [OF this, of "Inr ''/''"]
  show ?thesis by (simp add: server_example_def path_eval)
qed



section \<open>The transfer handlers: files and access entries\<close>

text \<open>
  What the deferred function adds to the entries of the body: one entry when the
  server has an access logger, none when it has not.
\<close>

lemma readHandler_sink:
  "sink (snd (readHandler ev s f rf w)) =
     sink (snd (snd (readHandler_body ev s f rf w))) @
     (case accessLog s of
        None \<Rightarrow> []
      | Some al \<Rightarrow>
          [access_entry al (out_RemoteAddr rf) ''GET'' f ''bytes_written''
             (fst (readHandler_body ev s f rf w)) (Now_end ev - Now_start ev)])"
  by (cases "readHandler_body ev s f rf w")
     (simp add: readHandler_def emit_def split: option.splits)

lemma writeHandler_sink:
  "sink (snd (writeHandler ev s f wt w)) =
     sink (snd (snd (writeHandler_body ev s f wt w))) @
     (case accessLog s of
        None \<Rightarrow> []
      | Some al \<Rightarrow>
          [access_entry al (in_RemoteAddr wt) ''PUT'' f ''bytes_read''
             (fst (writeHandler_body ev s f wt w)) (Now_end ev - Now_start ev)])"
  by (cases "writeHandler_body ev s f wt w")
     (simp add: writeHandler_def emit_def split: option.splits)

text \<open>
  Claim C4. When the path \<^verbatim>\<open>safePath\<close> computes for an upload names an existing file,
  \<^verbatim>\<open>writeHandler\<close> returns an error, the files are what they were, the byte count
  is zero, and the transfer is never asked for its bytes: the handler does the same
  whatever \<^verbatim>\<open>WriteTo\<close> would give.
\<close>

theorem writeHandler_existing_file:
  assumes "files w (fst (fst (safePath (Getwd ev) s filename))) = Some content"
  shows "fst (writeHandler ev s filename wt w) \<noteq> None
         \<and> files (snd (writeHandler ev s filename wt w)) = files w
         \<and> fst (writeHandler_body ev s filename wt w) = 0
         \<and> writeHandler ev s filename (wt\<lparr>WriteTo := other\<rparr>) w =
             writeHandler ev s filename wt w"
proof -
  obtain p e dbg where sp: "safePath (Getwd ev) s filename = ((p, e), dbg)"
    by (metis surj_pair)
  have ex: "files w p = Some content" using assms sp by simp
  show ?thesis
  proof (cases e)
    case None
    then show ?thesis using sp ex
      by (cases "accessLog s")
         (simp_all add: writeHandler_def writeHandler_body_def os_OpenFile_excl_def
            log_Error_def emit_def)
  next
    case (Some x)
    then show ?thesis using sp
      by (cases "accessLog s")
         (simp_all add: writeHandler_def writeHandler_body_def log_Error_def emit_def)
  qed
qed

theorem writeHandler_existing_file_witness:
  "fst (writeHandler env_example server_example ''new.img'' upload_example world_example) =
     Some (PathError ''open'' ''/srv/tftp/new.img'' ''file exists'')
   \<and> files (snd (writeHandler env_example server_example ''new.img'' upload_example
                   world_example)) ''/srv/tftp/new.img'' = Some ''old''"
proof -
  have "files world_example
          (fst (fst (safePath (Getwd env_example) server_example ''new.img''))) = Some ''old''"
    by (simp add: safePath_def example_defs path_eval)
  from writeHandler_existing_file [OF this, of upload_example "WriteTo upload_example"]
  have "files (snd (writeHandler env_example server_example ''new.img'' upload_example
                      world_example)) = files world_example"
    by simp
  moreover have
    "fst (writeHandler env_example server_example ''new.img'' upload_example world_example) =
       Some (PathError ''open'' ''/srv/tftp/new.img'' ''file exists'')"
    by (simp add: writeHandler_def writeHandler_body_def safePath_def example_defs path_eval
        os_OpenFile_excl_def log_Error_def emit_def)
  ultimately show ?thesis by (simp add: world_example_def)
qed

section \<open>Provision\<close>

text \<open>A successful \<^verbatim>\<open>Provision\<close> adds one server for every configured entry.\<close>

lemma Provision_loop_length:
  "Provision_loop getwd parse c S acc = (None, ss) \<Longrightarrow> length ss = length acc + length S"
proof (induction S arbitrary: acc)
  case Nil
  then show ?case by simp
next
  case (Cons x S)
  obtain nm srv where x: "x = (nm, srv)" by (cases x)
  show ?case using Cons.prems Cons.IH unfolding x
    by (auto simp: Let_def split: prod.splits option.splits sum.splits if_splits)
qed

text \<open>\<^verbatim>\<open>Provision\<close> does not read the field \<open>Logs\<close>.\<close>

lemma Provision_loop_ignores_Logs:
  "Provision_loop getwd parse c (map (\<lambda>(nm, srv). (nm, srv\<lparr>Logs := b\<rparr>)) S) acc =
   Provision_loop getwd parse c S acc"
proof (induction S arbitrary: acc)
  case Nil
  then show ?case by simp
next
  case (Cons x S)
  obtain nm srv where x: "x = (nm, srv)" by (cases x)
  show ?case unfolding x using Cons.IH
    by (simp add: Let_def split: prod.splits option.splits sum.splits)
qed

text \<open>
  The root of every server \<^verbatim>\<open>Provision\<close> makes is absolute and clean, the working
  directory being absolute.
\<close>

lemma Provision_loop_roots:
  assumes "IsAbs wd"
  shows "Provision_loop (Inr wd) parse c S acc = (e, ss) \<Longrightarrow>
     list_all (\<lambda>s. IsAbs (root s) \<and> Clean (root s) = root s) acc \<Longrightarrow>
     list_all (\<lambda>s. IsAbs (root s) \<and> Clean (root s) = root s) ss"
proof (induction S arbitrary: acc)
  case Nil
  then show ?case by simp
next
  case (Cons x S)
  obtain nm srv where x: "x = (nm, srv)" by (cases x)
  obtain R e' where a: "Abs (Inr wd) (Root srv) = (R, e')" by (cases "Abs (Inr wd) (Root srv)")
  from Abs_absolute_clean [OF assms a] have R: "e' = None" "IsAbs R" "Clean R = R" by auto
  show ?case
  proof (cases "parse (Listen srv)")
    case (Inl err)
    then show ?thesis using Cons.prems a R unfolding x by simp
  next
    case (Inr ad)
    show ?thesis
    proof (cases "Network ad = ''udp''")
      case False
      then show ?thesis using Cons.prems a R Inr unfolding x by simp
    next
      case True
      then show ?thesis using Cons.prems a R Inr unfolding x
        by (auto simp: Let_def intro!: Cons.IH)
    qed
  qed
qed

text \<open>The earlier revision added one server for every port offset.\<close>

lemma portOffset_loop_length:
  "portOffset_loop fsh c nm srv a k acc = (None, ss) \<Longrightarrow> length ss = length acc + k"
  by (induction k arbitrary: acc) (auto split: option.splits)

text \<open>
  Claim C5. The field \<open>Logs\<close> of the configuration is documented as enabling access
  logging, and the handlers emit the access entry only when the server has an access
  logger. \<^verbatim>\<open>Provision\<close> gives every server an access logger and never reads
  \<open>Logs\<close>: for the configuration with \<open>Logs\<close> false it makes the server
  \<open>server_example\<close>, whose access logger is set, and a download from that server
  emits the access entry.
\<close>

theorem access_entry_with_Logs_off:
  "Logs (snd (hd (Servers app_logs_off))) = False
   \<and> fst (Provision getwd parse_example \<lparr>ctx_Logger = ''tftp''\<rparr> app_logs_off) = None
   \<and> servers (snd (Provision getwd parse_example \<lparr>ctx_Logger = ''tftp''\<rparr> app_logs_off)) =
       [server_example]
   \<and> filter (\<lambda>e. logger e = ''tftp.a.access'')
        (sink (snd (readHandler env_example server_example ''boot.bin'' download_example
                      world_example))) =
       [access_entry ''tftp.a.access'' (Some client_example) ''GET'' ''boot.bin''
          ''bytes_written'' 3 15]"
  by (simp add: Provision_def app_logs_off_def parse_example_def Named_def
      readHandler_def readHandler_body_def safePath_def os_Open_def emit_def access_entry_def
      example_defs path_eval)

theorem access_entry_with_Logs_off_witness:
  "map accessLog (servers (snd (Provision (Inr ''/'') parse_example \<lparr>ctx_Logger = ''tftp''\<rparr>
      app_logs_off))) = [Some ''tftp.a.access'']"
  using access_entry_with_Logs_off [of "Inr ''/''"] by (simp add: server_example_def)

text \<open>
  Claim C6. The field \<open>Listen\<close> is documented with \<open>Listener addresses must be unique;
  they cannot be repeated across all defined servers\<close>. \<^verbatim>\<open>Provision\<close> compares no
  addresses: for two entries that both listen on \<open>:69\<close> it returns no error and makes
  two servers with the same address.
\<close>

theorem Provision_accepts_repeated_address:
  "fst (Provision getwd parse_example c app_repeated) = None
   \<and> map addr (servers (snd (Provision getwd parse_example c app_repeated))) =
       [\<lparr>Network = ''udp'', Host = [], StartPort = 69, EndPort = 69\<rparr>,
        \<lparr>Network = ''udp'', Host = [], StartPort = 69, EndPort = 69\<rparr>]"
  by (simp add: Provision_def app_repeated_def parse_example_def path_eval)

theorem Provision_accepts_repeated_address_witness:
  "\<not> distinct (map addr (servers (snd (Provision (Inr ''/'') parse_example
       \<lparr>ctx_Logger = ''tftp''\<rparr> app_repeated))))"
  using Provision_accepts_repeated_address [of "Inr ''/''" "\<lparr>ctx_Logger = ''tftp''\<rparr>"]
  by simp

text \<open>
  Claim C7. For an entry whose address is a range of two ports, \<^verbatim>\<open>Provision\<close> makes
  one server, which holds the whole range; the earlier revision made two, one for
  each port offset.
\<close>

theorem Provision_one_server_for_port_range:
  "fst (Provision getwd parse_example c app_range) = None
   \<and> map (\<lambda>s. PortRangeSize (addr s))
        (servers (snd (Provision getwd parse_example c app_range))) = [2]
   \<and> fst (Provision_part_000 (\<lambda>r. None) parse_example c (Servers app_range) []) = None
   \<and> length (snd (Provision_part_000 (\<lambda>r. None) parse_example c (Servers app_range) [])) = 2"
  by (simp add: Provision_def app_range_def parse_example_def PortRangeSize_def path_eval
      numeral_2_eq_2)

theorem Provision_one_server_for_port_range_witness:
  "length (servers (snd (Provision (Inr ''/'') parse_example \<lparr>ctx_Logger = ''tftp''\<rparr>
      app_range))) = 1"
proof -
  have "length (map (\<lambda>s. PortRangeSize (addr s))
     (servers (snd (Provision (Inr ''/'') parse_example \<lparr>ctx_Logger = ''tftp''\<rparr>
        app_range)))) = 1"
    using Provision_one_server_for_port_range [of "Inr ''/''" "\<lparr>ctx_Logger = ''tftp''\<rparr>"]
    by simp
  then show ?thesis by simp
qed

section \<open>Start and Stop\<close>

text \<open>
  When the loop of \<^verbatim>\<open>Start\<close> returns an error, it does so at some server \<open>k\<close> whose
  \<^verbatim>\<open>Listen\<close> gave no packet connection; the group holds the goroutines of the servers
  before \<open>k\<close>, all running, and their listeners are open.
\<close>

lemma Start_loop_failure:
  "Start_loop listen ss g w = (Some e, g', w') \<Longrightarrow>
   \<exists>k<length ss.
      goroutines g' = goroutines g @
        map (\<lambda>s. \<lparr>g_server = name s, g_conn = addr s, g_state = Running\<rparr>) (take k ss)
      \<and> err g' = err g
      \<and> (\<exists>x. e = ListenFailed (addr (ss ! k)) x)
      \<and> listen (listeners w @ map addr (take k ss)) (addr (ss ! k)) \<noteq> PacketConn
      \<and> prefix (listeners w @ map addr (take k ss)) (listeners w')
      \<and> sink w' = sink w \<and> files w' = files w"
proof (induction ss arbitrary: g w)
  case Nil
  then show ?case by simp
next
  case (Cons s ss)
  show ?case
  proof (cases "listen (listeners w) (addr s)")
    case (ListenError x)
    with Cons.prems show ?thesis by (intro exI [of _ 0]) auto
  next
    case NotPacketConn
    with Cons.prems show ?thesis by (intro exI [of _ 0]) auto
  next
    case PacketConn
    with Cons.prems have
      "Start_loop listen ss (Go g s) (w\<lparr>listeners := listeners w @ [addr s]\<rparr>) = (Some e, g', w')"
      by simp
    from Cons.IH [OF this] obtain k where k: "k < length ss"
      "goroutines g' = goroutines (Go g s) @
        map (\<lambda>s. \<lparr>g_server = name s, g_conn = addr s, g_state = Running\<rparr>) (take k ss)"
      "err g' = err (Go g s)" "\<exists>x. e = ListenFailed (addr (ss ! k)) x"
      "listen (listeners (w\<lparr>listeners := listeners w @ [addr s]\<rparr>) @ map addr (take k ss)) (addr (ss ! k)) \<noteq> PacketConn"
      "prefix (listeners (w\<lparr>listeners := listeners w @ [addr s]\<rparr>) @ map addr (take k ss)) (listeners w')"
      "sink w' = sink (w\<lparr>listeners := listeners w @ [addr s]\<rparr>)"
      "files w' = files (w\<lparr>listeners := listeners w @ [addr s]\<rparr>)"
      by blast
    then show ?thesis by (intro exI [of _ "Suc k"]) (simp add: Go_def)
  qed
qed




















end
